theory Spec2Isabelle
  imports Main "HOL-Library.Word"
begin

section \<open>Machine types\<close>

text \<open>
  The sources use \<^verbatim>\<open>uint32_t\<close> counters and sequence numbers and \<^verbatim>\<open>Time::Tick\<close>
  time stamps. \<^verbatim>\<open>Time::Tick\<close> is declared in the Moe.Core library, which is not part of
  the repository; it is taken as an unsigned 64-bit count of milliseconds.
  \<^verbatim>\<open>std::deque::size()\<close> returns a \<^verbatim>\<open>size_t\<close>, taken as 64 bits wide: arithmetic
  that mixes a size with a \<^verbatim>\<open>uint32_t\<close> is carried out modulo \<open>2 ^ 64\<close>, which is
  written out on natural numbers below.
\<close>

type_synonym u32 = "32 word"
type_synonym tick = "64 word"

section \<open>Pinger: the sliding-window estimator (Client.cpp, lines 25-136)\<close>

record PingPacket =
  Seq :: u32
  SendTime :: tick

record PingStatistic =
  TotalPacket :: u32
  PacketLost :: u32
  AvailablePacket :: u32
  LatencyTotal :: u32
  MaxLatency :: u32
  MinLatency :: u32

record Pinger =
  m_uInterval :: u32
  m_uTimeout :: u32
  m_ullNextSendTime :: tick
  m_uNextSeq :: u32
  m_stPingWindow :: "bool list"
  m_uTotalPacket :: u32
  m_uPacketLost :: u32
  m_uAvailablePacket :: u32
  m_uLatencyTotal :: u32
  m_uMaxLatency :: u32
  m_uMinLatency :: u32

text \<open>The constructor with the default member initialisers of the class.\<close>

definition Pinger_init :: "u32 \<Rightarrow> u32 \<Rightarrow> Pinger" where
  "Pinger_init interval timeout =
     \<lparr> m_uInterval = interval, m_uTimeout = timeout, m_ullNextSendTime = 0,
       m_uNextSeq = 0, m_stPingWindow = [], m_uTotalPacket = 0, m_uPacketLost = 0,
       m_uAvailablePacket = 0, m_uLatencyTotal = 0, m_uMaxLatency = 0,
       m_uMinLatency = - 1 \<rparr>"

text \<open>
  The loop of \<^verbatim>\<open>Update\<close> that handles timeouts: while the window is not empty and
  \<^verbatim>\<open>size() * m_uInterval >= m_uTimeout\<close>, the front slot is popped, and counted as lost
  when it is still \<^verbatim>\<open>false\<close>. It returns the remaining window and the new loss counter.
\<close>

fun Update_timeouts :: "u32 \<Rightarrow> u32 \<Rightarrow> bool list \<Rightarrow> u32 \<Rightarrow> bool list \<times> u32" where
  "Update_timeouts interval timeout [] lost = ([], lost)"
| "Update_timeouts interval timeout (b # bs) lost =
     (if unat timeout \<le> (length (b # bs) * unat interval) mod 2 ^ 64
      then Update_timeouts interval timeout bs (if b then lost else lost + 1)
      else (b # bs, lost))"

definition Update :: "Pinger \<Rightarrow> tick \<Rightarrow> Pinger \<times> PingPacket option" where
  "Update s now =
     (if m_ullNextSendTime s \<le> now then
        (case Update_timeouts (m_uInterval s) (m_uTimeout s) (m_stPingWindow s) (m_uPacketLost s) of
           (window, lost) \<Rightarrow>
             (s \<lparr> m_uPacketLost := lost,
                  m_uNextSeq := m_uNextSeq s + 1,
                  m_stPingWindow := window @ [False],
                  m_uTotalPacket := m_uTotalPacket s + 1,
                  m_ullNextSendTime := now + ucast (m_uInterval s) \<rparr>,
              Some \<lparr> Seq = m_uNextSeq s, SendTime = now \<rparr>))
      else (s, None))"

text \<open>
  \<^verbatim>\<open>Recv\<close> reads the clock itself (\<^verbatim>\<open>RunLoop::Now()\<close>); the reading is the argument
  \<open>now\<close>. \<open>Recv_offset\<close> is the \<^verbatim>\<open>size_t\<close> value
  \<^verbatim>\<open>m_stPingWindow.size() - (m_uNextSeq - packet.Seq)\<close>: the inner difference is a
  \<^verbatim>\<open>uint32_t\<close>, the outer one wraps modulo \<open>2 ^ 64\<close>.
\<close>

definition Recv_offset :: "Pinger \<Rightarrow> PingPacket \<Rightarrow> nat" where
  "Recv_offset s packet =
     (length (m_stPingWindow s) + 2 ^ 64 - unat (m_uNextSeq s - Seq packet)) mod 2 ^ 64"

definition Recv :: "Pinger \<Rightarrow> PingPacket \<Rightarrow> tick \<Rightarrow> Pinger" where
  "Recv s packet now =
     (if length (m_stPingWindow s) \<le> Recv_offset s packet then s
      else if m_stPingWindow s ! Recv_offset s packet then s
      else
        (let elapsed = (ucast (now - SendTime packet) :: u32) in
         s \<lparr> m_stPingWindow := (m_stPingWindow s) [Recv_offset s packet := True],
             m_uAvailablePacket := m_uAvailablePacket s + 1,
             m_uLatencyTotal := m_uLatencyTotal s + elapsed,
             m_uMaxLatency := max (m_uMaxLatency s) elapsed,
             m_uMinLatency := min (m_uMinLatency s) elapsed \<rparr>))"

definition GetStatistic :: "Pinger \<Rightarrow> PingStatistic" where
  "GetStatistic s =
     \<lparr> TotalPacket = m_uTotalPacket s,
       PacketLost = m_uPacketLost s,
       AvailablePacket = m_uAvailablePacket s,
       LatencyTotal = m_uLatencyTotal s,
       MaxLatency = (if m_uAvailablePacket s = 0 then 0 else m_uMaxLatency s),
       MinLatency = (if m_uAvailablePacket s = 0 then 0 else m_uMinLatency s) \<rparr>"

definition Reset :: "Pinger \<Rightarrow> Pinger" where
  "Reset s =
     s \<lparr> m_stPingWindow := [],
         m_ullNextSendTime := 0,
         m_uTotalPacket := 0,
         m_uPacketLost := 0,
         m_uAvailablePacket := 0,
         m_uLatencyTotal := 0,
         m_uMaxLatency := 0,
         m_uMinLatency := - 1 \<rparr>"

text \<open>Sequences of calls on one estimator, applied from left to right.\<close>

datatype Pinger_call = CallUpdate tick | CallRecv PingPacket tick | CallReset

fun Pinger_step :: "Pinger \<Rightarrow> Pinger_call \<Rightarrow> Pinger" where
  "Pinger_step s (CallUpdate now) = fst (Update s now)"
| "Pinger_step s (CallRecv packet now) = Recv s packet now"
| "Pinger_step s CallReset = Reset s"

definition Pinger_run :: "Pinger \<Rightarrow> Pinger_call list \<Rightarrow> Pinger" where
  "Pinger_run s calls = foldl Pinger_step s calls"


text \<open>The probes that a sequence of calls emits, in order.\<close>

fun Pinger_sent :: "Pinger \<Rightarrow> Pinger_call list \<Rightarrow> PingPacket list" where
  "Pinger_sent s [] = []"
| "Pinger_sent s (CallUpdate now # calls) =
     (case snd (Update s now) of None \<Rightarrow> [] | Some packet \<Rightarrow> [packet])
       @ Pinger_sent (fst (Update s now)) calls"
| "Pinger_sent s (call # calls) = Pinger_sent (Pinger_step s call) calls"

text \<open>
  The sequence number that slot \<open>i\<close> of the window stands for: \<^verbatim>\<open>Update\<close> appends one
  slot per sequence number, so the last slot belongs to \<open>m_uNextSeq - 1\<close> and slot \<open>i\<close> to
  \<open>m_uNextSeq - (size - i)\<close>, in \<^verbatim>\<open>uint32_t\<close> arithmetic.
\<close>

definition slot_seq :: "Pinger \<Rightarrow> nat \<Rightarrow> u32" where
  "slot_seq s i = m_uNextSeq s - of_nat (length (m_stPingWindow s) - i)"

definition window_seqs :: "Pinger \<Rightarrow> u32 list" where
  "window_seqs s = map (slot_seq s) [0 ..< length (m_stPingWindow s)]"

section \<open>Collaborators of the client and the server\<close>

text \<open>
  Sockets, the run loop, the logger and the record codec belong to the Moe library. A
  socket object is represented by the number of its handle; every call that the programs
  make on a collaborator is recorded, in order, as an effect. \<^verbatim>\<open>Mdr::WriteStruct\<close> and
  \<^verbatim>\<open>Mdr::ReadStruct\<close> are parameters of the functions that use them; a decoder returns
  \<open>None\<close> where \<^verbatim>\<open>ReadStruct\<close> throws. The floating-point columns of the report lines
  (percentage and average) are formatting of the logged counters and are left out.
\<close>

type_synonym bytes = "8 word list"

record EndPoint =
  Addr :: string
  Port :: "16 word"

datatype Proto = TCP | UDP

datatype LogEvent =
    PingReport Proto PingStatistic u32
  | ServerConnected
  | ConnectFailed int
  | TcpSocketError int
  | TcpRemoteEof
  | UdpSocketError int
  | DecodeException
  | SessionError nat int
  | SessionRemoteClose nat
  | SessionAccepted nat nat

datatype Effect =
    SockCreate nat
  | SockBindCallbacks nat
  | SockConnect nat EndPoint
  | SockStartRead nat
  | SockClose nat
  | TcpWrite nat bytes
  | UdpSend nat EndPoint bytes
  | Log LogEvent
  | SinkLog LogEvent

section \<open>Client (Client.cpp, lines 140-358)\<close>

record Configure =
  ServerAddr :: string
  ServerPort :: "16 word"
  PingInterval :: u32
  PingTimeout :: u32
  Output :: string

datatype TcpChannelState = STATE_TCP_NOT_CONNECT | STATE_TCP_CONNECTING | STATE_TCP_CONNECTED

text \<open>
  \<open>m_pSink\<close> records whether the rotating file sink exists. \<open>HandlesCreated\<close> is the
  number of socket objects created so far; \<^verbatim>\<open>TcpSocket::Create()\<close> and
  \<^verbatim>\<open>UdpSocket::Create()\<close> return the handle with that number.
\<close>

record Client =
  m_stServerEndPoint :: EndPoint
  m_stTcpSocket :: nat
  m_stUdpSocket :: nat
  m_iTcpChannelState :: TcpChannelState
  m_ullNextTryConnectTime :: tick
  m_ullNextPintStatTime :: tick
  m_stTcpPinger :: Pinger
  m_stUdpPinger :: Pinger
  m_pSink :: bool
  HandlesCreated :: nat

definition Client_init :: "Configure \<Rightarrow> Client \<times> Effect list" where
  "Client_init cfg =
     (\<lparr> m_stServerEndPoint = \<lparr> Addr = ServerAddr cfg, Port = ServerPort cfg \<rparr>,
        m_stTcpSocket = 0,
        m_stUdpSocket = 1,
        m_iTcpChannelState = STATE_TCP_NOT_CONNECT,
        m_ullNextTryConnectTime = 0,
        m_ullNextPintStatTime = 0,
        m_stTcpPinger = Pinger_init (PingInterval cfg) (PingTimeout cfg),
        m_stUdpPinger = Pinger_init (PingInterval cfg) (PingTimeout cfg),
        m_pSink = (Output cfg \<noteq> []),
        HandlesCreated = 2 \<rparr>,
      [SockCreate 0, SockCreate 1, SockBindCallbacks 0, SockBindCallbacks 1])"

text \<open>The two log lines of one transport in the periodic report of \<^verbatim>\<open>OnTick\<close>.\<close>

definition report_lines :: "bool \<Rightarrow> Proto \<Rightarrow> PingStatistic \<Rightarrow> Effect list" where
  "report_lines sink proto stat =
     (let total = PacketLost stat + AvailablePacket stat in
      Log (PingReport proto stat total) #
        (if sink then [SinkLog (PingReport proto stat total)] else []))"

definition Client_OnTick ::
  "(PingPacket \<Rightarrow> bytes) \<Rightarrow> Client \<Rightarrow> tick \<Rightarrow> Client \<times> Effect list" where
  "Client_OnTick WriteStruct c now =
     (let try_connect =
            (m_iTcpChannelState c = STATE_TCP_NOT_CONNECT \<and> m_ullNextTryConnectTime c \<le> now);
          state = (if try_connect then STATE_TCP_CONNECTING else m_iTcpChannelState c);
          tcp = Update (m_stTcpPinger c) now;
          udp = Update (m_stUdpPinger c) now;
          stat_due = (m_ullNextPintStatTime c \<le> now)
      in
        (c \<lparr> m_iTcpChannelState := state,
              m_stTcpPinger := (if stat_due then Reset (fst tcp) else fst tcp),
              m_stUdpPinger := (if stat_due then Reset (fst udp) else fst udp),
              m_ullNextPintStatTime :=
                (if stat_due then now + 60 * 1000 else m_ullNextPintStatTime c) \<rparr>,
         (if try_connect then [SockConnect (m_stTcpSocket c) (m_stServerEndPoint c)] else [])
         @ (case snd tcp of
              None \<Rightarrow> []
            | Some tcpPacket \<Rightarrow>
                if state = STATE_TCP_CONNECTED
                then [TcpWrite (m_stTcpSocket c) (WriteStruct tcpPacket)] else [])
         @ (case snd udp of
              None \<Rightarrow> []
            | Some udpPacket \<Rightarrow>
                [UdpSend (m_stUdpSocket c) (m_stServerEndPoint c) (WriteStruct udpPacket)])
         @ (if stat_due
            then report_lines (m_pSink c) TCP (GetStatistic (fst tcp))
                 @ report_lines (m_pSink c) UDP (GetStatistic (fst udp))
            else [])))"

text \<open>The callbacks read \<^verbatim>\<open>RunLoop::Now()\<close>; the reading is the argument \<open>now\<close>.\<close>

definition Client_OnTcpConnected :: "Client \<Rightarrow> int \<Rightarrow> tick \<Rightarrow> Client \<times> Effect list" where
  "Client_OnTcpConnected c err now =
     (if err = 0 then
        (c \<lparr> m_iTcpChannelState := STATE_TCP_CONNECTED,
              m_stTcpPinger := Reset (m_stTcpPinger c) \<rparr>,
         [Log ServerConnected, SockStartRead (m_stTcpSocket c)])
      else
        (c \<lparr> m_ullNextTryConnectTime := now + 10 * 1000,
              m_iTcpChannelState := STATE_TCP_NOT_CONNECT \<rparr>,
         [Log (ConnectFailed err)]))"

definition Client_OnTcpError :: "Client \<Rightarrow> int \<Rightarrow> tick \<Rightarrow> Client \<times> Effect list" where
  "Client_OnTcpError c err now =
     (c \<lparr> m_stTcpSocket := HandlesCreated c,
           HandlesCreated := HandlesCreated c + 1,
           m_iTcpChannelState := STATE_TCP_NOT_CONNECT,
           m_ullNextTryConnectTime := now + 10 * 1000 \<rparr>,
      [Log (TcpSocketError err), SockCreate (HandlesCreated c),
       SockBindCallbacks (HandlesCreated c)])"

definition Client_OnTcpData ::
  "(bytes \<Rightarrow> PingPacket option) \<Rightarrow> Client \<Rightarrow> bytes \<Rightarrow> tick \<Rightarrow> Client \<times> Effect list" where
  "Client_OnTcpData ReadStruct c data now =
     (case ReadStruct data of
        Some packet \<Rightarrow> (c \<lparr> m_stTcpPinger := Recv (m_stTcpPinger c) packet now \<rparr>, [])
      | None \<Rightarrow> (c, [Log DecodeException]))"

definition Client_OnTcpDataEof :: "Client \<Rightarrow> tick \<Rightarrow> Client \<times> Effect list" where
  "Client_OnTcpDataEof c now =
     (c \<lparr> m_stTcpSocket := HandlesCreated c,
           HandlesCreated := HandlesCreated c + 1,
           m_iTcpChannelState := STATE_TCP_NOT_CONNECT,
           m_ullNextTryConnectTime := now + 10 * 1000 \<rparr>,
      [Log TcpRemoteEof, SockClose (m_stTcpSocket c), SockCreate (HandlesCreated c),
       SockBindCallbacks (HandlesCreated c)])"

definition Client_OnUdpData ::
  "(bytes \<Rightarrow> PingPacket option) \<Rightarrow> Client \<Rightarrow> EndPoint \<Rightarrow> bytes \<Rightarrow> tick
     \<Rightarrow> Client \<times> Effect list" where
  "Client_OnUdpData ReadStruct c from data now =
     (case ReadStruct data of
        Some packet \<Rightarrow> (c \<lparr> m_stUdpPinger := Recv (m_stUdpPinger c) packet now \<rparr>, [])
      | None \<Rightarrow> (c, [Log DecodeException]))"

definition Client_OnUdpError :: "Client \<Rightarrow> int \<Rightarrow> Client \<times> Effect list" where
  "Client_OnUdpError c err =
     (c \<lparr> m_stUdpSocket := HandlesCreated c,
           HandlesCreated := HandlesCreated c + 1 \<rparr>,
      [Log (UdpSocketError err), SockCreate (HandlesCreated c),
       SockBindCallbacks (HandlesCreated c), SockStartRead (HandlesCreated c)])"

section \<open>Server (Server.cpp, lines 22-144)\<close>

text \<open>
  A session owns the socket that \<^verbatim>\<open>Accept()\<close> returned; the handle number also tells
  the session objects of the registry apart.
\<close>

record Session =
  Socket :: nat
  LastAlive :: tick
  Dead :: bool




record Server =
  m_stSessions :: "Session list"
  Accepted :: nat

text \<open>
  The loop of \<^verbatim>\<open>Server::OnTick\<close> over the registry: a dead session is erased, a live one
  whose \<^verbatim>\<open>LastAlive + 60 * 1000 <= now\<close> is closed and marked dead and stays.
\<close>

fun OnTick_sessions :: "tick \<Rightarrow> Session list \<Rightarrow> Session list \<times> Effect list" where
  "OnTick_sessions now [] = ([], [])"
| "OnTick_sessions now (s # ss) =
     (if Dead s then OnTick_sessions now ss
      else if LastAlive s + 60 * 1000 \<le> now
      then (s \<lparr> Dead := True \<rparr> # fst (OnTick_sessions now ss),
            SockClose (Socket s) # snd (OnTick_sessions now ss))
      else (s # fst (OnTick_sessions now ss), snd (OnTick_sessions now ss)))"

definition Server_OnTick :: "Server \<Rightarrow> tick \<Rightarrow> Server \<times> Effect list" where
  "Server_OnTick srv now =
     (srv \<lparr> m_stSessions := fst (OnTick_sessions now (m_stSessions srv)) \<rparr>,
      snd (OnTick_sessions now (m_stSessions srv)))"

text \<open>
  \<^verbatim>\<open>OnTcpConnection\<close>: the accepted socket gets the next handle number; the session is
  constructed dead, then made live, and appended to the registry.
\<close>

definition Server_OnTcpConnection :: "Server \<Rightarrow> tick \<Rightarrow> Server \<times> Effect list" where
  "Server_OnTcpConnection srv now =
     (srv \<lparr> m_stSessions :=
               m_stSessions srv @ [\<lparr> Socket = Accepted srv, LastAlive = now, Dead = False \<rparr>],
             Accepted := Accepted srv + 1 \<rparr>,
      [Log (SessionAccepted (Accepted srv) (length (m_stSessions srv) + 1)),
       SockBindCallbacks (Accepted srv), SockStartRead (Accepted srv)])"

section \<open>Invariants of the estimator\<close>

text \<open>
  \<open>window_bounded\<close>: the window is at most one slot longer than the timeout allows.
  \<open>counters_balanced\<close>: every probe sent since the last reset is lost, acknowledged or
  still an unacknowledged slot of the window, in \<^verbatim>\<open>uint32_t\<close> arithmetic;
  \<open>counters_exact\<close> says the same without wrap-around, for a state that at most \<open>n\<close>
  calls have produced.
\<close>

definition window_bounded :: "Pinger \<Rightarrow> bool" where
  "window_bounded s =
     (length (m_stPingWindow s) * unat (m_uInterval s)
        \<le> unat (m_uTimeout s) + unat (m_uInterval s))"



text \<open>
  \<open>seqs_not_wrapped\<close>: the window is no longer than \<^verbatim>\<open>m_uNextSeq\<close>, so its sequence
  numbers are the integers from \<open>m_uNextSeq - size\<close> to \<open>m_uNextSeq - 1\<close>, in a state
  that at most \<open>n\<close> calls have produced.
\<close>

definition seqs_not_wrapped :: "nat \<Rightarrow> Pinger \<Rightarrow> bool" where
  "seqs_not_wrapped n s =
     (length (m_stPingWindow s) \<le> unat (m_uNextSeq s) \<and> unat (m_uNextSeq s) \<le> n)"

text \<open>The slot that \<^verbatim>\<open>Recv\<close> computes for a packet exists and is already \<^verbatim>\<open>true\<close>.\<close>

definition slot_acknowledged :: "Pinger \<Rightarrow> PingPacket \<Rightarrow> bool" where
  "slot_acknowledged s packet =
     (Recv_offset s packet < length (m_stPingWindow s)
      \<and> m_stPingWindow s ! Recv_offset s packet)"

section \<open>Concrete runs\<close>

text \<open>
  The example of the specification: interval 1000, timeout 5000, probes at 0, 1000, 2000,
  3000 and 4000, and the echo of probe 2 received at 2100. The second list delivers the
  echo after the five probes instead.
\<close>

definition spec_example_calls :: "Pinger_call list" where
  "spec_example_calls =
     [CallUpdate 0, CallUpdate 1000, CallUpdate 2000,
      CallRecv \<lparr> Seq = 2, SendTime = 2000 \<rparr> 2100,
      CallUpdate 3000, CallUpdate 4000]"

definition spec_example_calls_late_ack :: "Pinger_call list" where
  "spec_example_calls_late_ack =
     [CallUpdate 0, CallUpdate 1000, CallUpdate 2000, CallUpdate 3000, CallUpdate 4000,
      CallRecv \<lparr> Seq = 2, SendTime = 2000 \<rparr> 2100]"

definition spec_example :: Pinger where
  "spec_example = Pinger_run (Pinger_init 1000 5000) spec_example_calls"

definition spec_example_aged :: Pinger where
  "spec_example_aged = fst (Update spec_example 6000)"

text \<open>
  A stand-in for the record codec, used in concrete runs only: two bytes, the sequence
  number and the send time.
\<close>

definition example_WriteStruct :: "PingPacket \<Rightarrow> bytes" where
  "example_WriteStruct packet = [ucast (Seq packet), ucast (SendTime packet)]"

definition example_ReadStruct :: "bytes \<Rightarrow> PingPacket option" where
  "example_ReadStruct data =
     (case data of
        [a, b] \<Rightarrow> Some \<lparr> Seq = ucast a, SendTime = ucast b \<rparr>
      | _ \<Rightarrow> None)"

definition example_cfg :: Configure where
  "example_cfg = \<lparr> ServerAddr = ''192.0.2.1'', ServerPort = 7000, PingInterval = 10,
                   PingTimeout = 20, Output = [] \<rparr>"

definition example_server :: EndPoint where
  "example_server = \<lparr> Addr = ''192.0.2.1'', Port = 7000 \<rparr>"

definition example_stranger :: EndPoint where
  "example_stranger = \<lparr> Addr = ''203.0.113.9'', Port = 4444 \<rparr>"

text \<open>Ticks of the client at the given times, with no socket callback in between.\<close>

fun Client_ticks ::
  "(PingPacket \<Rightarrow> bytes) \<Rightarrow> Client \<Rightarrow> tick list \<Rightarrow> Client \<times> Effect list" where
  "Client_ticks W c [] = (c, [])"
| "Client_ticks W c (now # nows) =
     (fst (Client_ticks W (fst (Client_OnTick W c now)) nows),
      snd (Client_OnTick W c now) @ snd (Client_ticks W (fst (Client_OnTick W c now)) nows))"

text \<open>
  A client that has ticked at 0, 10, 20 and 30 while the connect attempt of the first tick
  is still pending.
\<close>

definition example_client :: Client where
  "example_client =
     fst (Client_ticks example_WriteStruct (fst (Client_init example_cfg)) [0, 10, 20, 30])"


definition example_sessions :: "Session list" where
  "example_sessions =
     [\<lparr> Socket = 3, LastAlive = 500, Dead = True \<rparr>,
      \<lparr> Socket = 4, LastAlive = 1000, Dead = False \<rparr>,
      \<lparr> Socket = 5, LastAlive = 30000, Dead = False \<rparr>]"

definition example_registry :: Server where
  "example_registry = \<lparr> m_stSessions = example_sessions, Accepted = 6 \<rparr>"

section \<open>The timeout loop\<close>


lemma unat_Suc32: "unat (x :: u32) < 2 ^ 32 - 1 \<Longrightarrow> unat (x + 1) = unat x + 1"
  using unat_add_lem [of x 1] by simp


text \<open>
  When the product of the loop condition cannot wrap, the loop leaves a window that is
  empty or shorter than the timeout.
\<close>

lemma Update_timeouts_bound:
  "length w * unat I < 2 ^ 64 \<Longrightarrow>
     fst (Update_timeouts I T w lost) = [] \<or>
     length (fst (Update_timeouts I T w lost)) * unat I < unat T"
proof (induction w arbitrary: lost)
  case Nil
  then show ?case by simp
next
  case (Cons b bs)
  from Cons.prems have "length bs * unat I < 2 ^ 64"
    by (simp add: algebra_simps)
  note IH = Cons.IH [OF this]
  show ?case
  proof (cases "unat T \<le> (length (b # bs) * unat I) mod 2 ^ 64")
    case True
    with IH show ?thesis by simp
  next
    case False
    moreover from Cons.prems
    have "(length (b # bs) * unat I) mod 2 ^ 64 = length (b # bs) * unat I"
      by simp
    ultimately show ?thesis by simp
  qed
qed

section \<open>Runs of calls\<close>

lemma run_snoc: "Pinger_run s (cs @ [c]) = Pinger_step (Pinger_run s cs) c"
  by (simp add: Pinger_run_def)

lemma step_consts:
  "m_uInterval (Pinger_step s c) = m_uInterval s \<and> m_uTimeout (Pinger_step s c) = m_uTimeout s"
  by (cases c) (simp_all add: Update_def Recv_def Reset_def Let_def split: prod.splits)

lemma run_consts:
  "m_uInterval (Pinger_run s cs) = m_uInterval s \<and> m_uTimeout (Pinger_run s cs) = m_uTimeout s"
  by (induction cs rule: rev_induct)
    (simp_all add: run_snoc step_consts, simp add: Pinger_run_def)

section \<open>The window stays short\<close>

lemma u32_sum_small: "unat (a :: u32) + unat (b :: u32) < 2 ^ 64"
proof -
  have "unat a < 2 ^ 32" "unat b < 2 ^ 32"
    using unsigned_less [of a] unsigned_less [of b] by simp_all
  then show ?thesis by simp
qed

lemma window_bounded_Update:
  assumes "window_bounded s"
  shows "window_bounded (fst (Update s now))"
proof (cases "m_ullNextSendTime s \<le> now")
  case False
  with assms show ?thesis by (simp add: Update_def)
next
  case True
  from assms have "length (m_stPingWindow s) * unat (m_uInterval s) < 2 ^ 64"
    using u32_sum_small [of "m_uTimeout s" "m_uInterval s"] by (simp add: window_bounded_def)
  from Update_timeouts_bound [OF this, of "m_uTimeout s" "m_uPacketLost s"] True
  show ?thesis
    by (auto simp: Update_def window_bounded_def split: prod.splits)
qed

lemma window_bounded_step: "window_bounded s \<Longrightarrow> window_bounded (Pinger_step s c)"
proof (cases c)
  case (CallUpdate now)
  assume "window_bounded s"
  with CallUpdate show ?thesis by (simp add: window_bounded_Update)
next
  case (CallRecv p now)
  assume "window_bounded s"
  with CallRecv show ?thesis by (simp add: window_bounded_def Recv_def Let_def)
next
  case CallReset
  then show ?thesis by (simp add: window_bounded_def Reset_def)
qed

lemma window_bounded_run: "window_bounded s \<Longrightarrow> window_bounded (Pinger_run s cs)"
  by (induction cs rule: rev_induct)
    (simp_all add: run_snoc window_bounded_step, simp add: Pinger_run_def)

lemma window_bounded_init: "window_bounded (Pinger_init I T)"
  by (simp add: window_bounded_def Pinger_init_def)

lemma bound_div:
  assumes "l * i \<le> t + i" "0 < (i::nat)"
  shows "l \<le> t div i + 1"
proof -
  from assms have "l * i div i \<le> (t + i) div i" by (intro div_le_mono)
  with assms(2) show ?thesis by (simp add: div_add_self2)
qed

text \<open>
  With interval 0 and a positive timeout the loop condition never holds, so the loop pops
  nothing and every \<^verbatim>\<open>Update\<close> that sends makes the window one slot longer.
\<close>

lemma Update_timeouts_interval_0:
  "Update_timeouts 0 5 w lost = (w, lost)"
  by (cases w) simp_all

lemma replicate_Updates_interval_0:
  "Pinger_run (Pinger_init 0 5) (replicate n (CallUpdate 0))
     = (Pinger_init 0 5) \<lparr> m_uNextSeq := of_nat n, m_stPingWindow := replicate n False,
                  m_uTotalPacket := of_nat n \<rparr>"
proof (induction n)
  case 0
  show ?case by (simp add: Pinger_run_def Pinger_init_def)
next
  case (Suc n)
  have "replicate (Suc n) (CallUpdate 0) = replicate n (CallUpdate 0) @ [CallUpdate 0]"
    by (simp add: replicate_append_same)
  then have "Pinger_run (Pinger_init 0 5) (replicate (Suc n) (CallUpdate 0))
      = fst (Update (Pinger_run (Pinger_init 0 5) (replicate n (CallUpdate 0))) 0)"
    by (simp only: run_snoc Pinger_step.simps)
  also have "\<dots> = (Pinger_init 0 5) \<lparr> m_uNextSeq := of_nat (Suc n),
                  m_stPingWindow := replicate (Suc n) False,
                  m_uTotalPacket := of_nat (Suc n) \<rparr>"
    by (simp only: Suc.IH)
      (simp add: Update_def Pinger_init_def Update_timeouts_interval_0 replicate_append_same
        add.commute)
  finally show ?case .
qed

section \<open>The counters account for every probe\<close>


lemma Recv_changes:
  assumes "Recv s p now \<noteq> s"
  shows "Recv_offset s p < length (m_stPingWindow s)"
    and "\<not> m_stPingWindow s ! Recv_offset s p"
  using assms by (auto simp: Recv_def split: if_splits)






text \<open>
  The bound on the number of calls is needed: with interval 0 and timeout 0 every
  \<^verbatim>\<open>Update\<close> at time 0 sends a probe and evicts the previous one, and after \<open>2 ^ 32\<close>
  calls \<^verbatim>\<open>m_uTotalPacket\<close> has wrapped to 0 while \<^verbatim>\<open>m_uPacketLost\<close> is \<open>2 ^ 32 - 1\<close>.
\<close>

lemma Update_wrap_step:
  "fst (Update ((Pinger_init 0 0) \<lparr> m_uNextSeq := q, m_stPingWindow := [False],
                  m_uTotalPacket := t, m_uPacketLost := l \<rparr>) 0)
     = (Pinger_init 0 0) \<lparr> m_uNextSeq := q + 1, m_stPingWindow := [False],
                  m_uTotalPacket := t + 1, m_uPacketLost := l + 1 \<rparr>"
  by (simp add: Update_def Pinger_init_def)

lemma replicate_Updates:
  "Pinger_run (Pinger_init 0 0) (replicate (Suc n) (CallUpdate 0))
     = (Pinger_init 0 0) \<lparr> m_uNextSeq := of_nat (Suc n), m_stPingWindow := [False],
                  m_uTotalPacket := of_nat (Suc n), m_uPacketLost := of_nat n \<rparr>"
proof (induction n)
  case 0
  show ?case by (simp add: Pinger_run_def Update_def Pinger_init_def)
next
  case (Suc n)
  have "replicate (Suc (Suc n)) (CallUpdate 0) = replicate (Suc n) (CallUpdate 0) @ [CallUpdate 0]"
    by (simp add: replicate_append_same)
  then have "Pinger_run (Pinger_init 0 0) (replicate (Suc (Suc n)) (CallUpdate 0))
      = fst (Update (Pinger_run (Pinger_init 0 0) (replicate (Suc n) (CallUpdate 0))) 0)"
    by (simp only: run_snoc Pinger_step.simps)
  also have "\<dots> = (Pinger_init 0 0) \<lparr> m_uNextSeq := of_nat (Suc (Suc n)),
                  m_stPingWindow := [False],
                  m_uTotalPacket := of_nat (Suc (Suc n)), m_uPacketLost := of_nat (Suc n) \<rparr>"
    by (simp only: Suc.IH Update_wrap_step) (simp add: add.commute)
  finally show ?case .
qed

lemma counters_wrap:
  "\<not> unat (m_uPacketLost (Pinger_run (Pinger_init 0 0) (replicate (2 ^ 32) (CallUpdate 0))))
      + unat (m_uAvailablePacket (Pinger_run (Pinger_init 0 0) (replicate (2 ^ 32) (CallUpdate 0))))
     \<le> unat (m_uTotalPacket (Pinger_run (Pinger_init 0 0) (replicate (2 ^ 32) (CallUpdate 0))))"
proof -
  have "(2 :: nat) ^ 32 = Suc 4294967295" by simp
  then have "Pinger_run (Pinger_init 0 0) (replicate (2 ^ 32) (CallUpdate 0))
     = (Pinger_init 0 0) \<lparr> m_uNextSeq := of_nat (Suc 4294967295), m_stPingWindow := [False],
                  m_uTotalPacket := of_nat (Suc 4294967295), m_uPacketLost := of_nat 4294967295 \<rparr>"
    by (simp only: replicate_Updates)
  then show ?thesis
    by (simp add: Pinger_init_def)
qed

section \<open>Which packets Recv takes\<close>

text \<open>A packet that \<^verbatim>\<open>Recv\<close> finds a slot for carries the sequence number of that slot.\<close>

lemma Recv_offset_in_range:
  assumes "Recv_offset s p < length (m_stPingWindow s)"
  shows "Seq p \<in> set (window_seqs s)"
proof -
  let ?L = "length (m_stPingWindow s)"
  let ?d = "unat (m_uNextSeq s - Seq p)"
  have d32: "?d < 2 ^ 32"
    using unsigned_less [of "m_uNextSeq s - Seq p"] by simp
  have "\<exists>k. 1 \<le> k \<and> k \<le> ?L \<and> (of_nat k :: u32) = m_uNextSeq s - Seq p"
  proof (cases "?L < 2 ^ 32")
    case True
    have "?d \<noteq> 0"
    proof
      assume "?d = 0"
      with assms True show False by (simp add: Recv_offset_def)
    qed
    moreover have "?d \<le> ?L"
    proof (rule ccontr)
      assume "\<not> ?d \<le> ?L"
      with d32 True have "Recv_offset s p = ?L + 2 ^ 64 - ?d"
        by (simp add: Recv_offset_def)
      with d32 assms show False by simp
    qed
    ultimately show ?thesis
      by (intro exI [of _ ?d]) simp
  next
    case long: False
    show ?thesis
    proof (cases "?d = 0")
      case True
      then have "m_uNextSeq s - Seq p = 0" by (simp add: unat_eq_0)
      with long show ?thesis
        by (intro exI [of _ "2 ^ 32"]) simp
    next
      case False
      with long d32 show ?thesis
        by (intro exI [of _ ?d]) simp
    qed
  qed
  then obtain k where k: "1 \<le> k" "k \<le> ?L" "(of_nat k :: u32) = m_uNextSeq s - Seq p"
    by blast
  then have "slot_seq s (?L - k) = Seq p"
    by (simp add: slot_seq_def)
  moreover from k have "?L - k < ?L" by simp
  ultimately show ?thesis
    by (auto simp: window_seqs_def intro!: image_eqI [of _ _ "?L - k"])
qed

text \<open>
  While the sequence numbers of the window have not wrapped (the window is no longer than
  \<^verbatim>\<open>m_uNextSeq\<close>), they are the integers from \<open>m_uNextSeq - size\<close> to \<open>m_uNextSeq - 1\<close>:
  a smaller \<^verbatim>\<open>Seq\<close> is older than the window and one from \<^verbatim>\<open>m_uNextSeq\<close> on is newer than
  the last probe sent.
\<close>

lemma slot_seq_unat:
  assumes "i < length (m_stPingWindow s)"
    and "length (m_stPingWindow s) - i \<le> unat (m_uNextSeq s)"
  shows "unat (slot_seq s i) = unat (m_uNextSeq s) - (length (m_stPingWindow s) - i)"
proof -
  define k where "k = length (m_stPingWindow s) - i"
  have "unat (m_uNextSeq s) < 2 ^ 32"
    using unsigned_less [of "m_uNextSeq s"] by simp
  with assms(2) have uk: "unat (of_nat k :: u32) = k"
    by (simp add: unat_of_nat k_def [symmetric])
  with assms(2) have "(of_nat k :: u32) \<le> m_uNextSeq s"
    by (simp add: word_le_nat_alt k_def [symmetric])
  then have "unat (m_uNextSeq s - of_nat k) = unat (m_uNextSeq s) - k"
    using uk by (simp add: unat_sub)
  then show ?thesis
    by (simp add: slot_seq_def k_def [symmetric])
qed

lemma older_not_in_window:
  assumes "unat (Seq p) + length (m_stPingWindow s) < unat (m_uNextSeq s)"
  shows "Seq p \<notin> set (window_seqs s)"
proof
  assume "Seq p \<in> set (window_seqs s)"
  then obtain i where i: "i < length (m_stPingWindow s)" and e: "slot_seq s i = Seq p"
    by (auto simp: window_seqs_def)
  from assms i have "length (m_stPingWindow s) - i \<le> unat (m_uNextSeq s)" by simp
  from slot_seq_unat [OF i this] e assms i show False by simp
qed

lemma newer_not_in_window:
  assumes "unat (m_uNextSeq s) \<le> unat (Seq p)"
    and "length (m_stPingWindow s) \<le> unat (m_uNextSeq s)"
  shows "Seq p \<notin> set (window_seqs s)"
proof
  assume "Seq p \<in> set (window_seqs s)"
  then obtain i where i: "i < length (m_stPingWindow s)" and e: "slot_seq s i = Seq p"
    by (auto simp: window_seqs_def)
  from assms i have "length (m_stPingWindow s) - i \<le> unat (m_uNextSeq s)" by simp
  from slot_seq_unat [OF i this] e assms i show False by simp
qed

lemma window_seqs_range:
  assumes "length (m_stPingWindow s) \<le> unat (m_uNextSeq s)"
  shows "Seq p \<in> set (window_seqs s) \<longleftrightarrow>
     unat (m_uNextSeq s) \<le> unat (Seq p) + length (m_stPingWindow s)
     \<and> unat (Seq p) < unat (m_uNextSeq s)"
proof
  assume "Seq p \<in> set (window_seqs s)"
  with older_not_in_window [of p s] newer_not_in_window [OF _ assms, of p]
  show "unat (m_uNextSeq s) \<le> unat (Seq p) + length (m_stPingWindow s)
     \<and> unat (Seq p) < unat (m_uNextSeq s)"
    by (meson not_le)
next
  assume r: "unat (m_uNextSeq s) \<le> unat (Seq p) + length (m_stPingWindow s)
     \<and> unat (Seq p) < unat (m_uNextSeq s)"
  define i where "i = length (m_stPingWindow s) - (unat (m_uNextSeq s) - unat (Seq p))"
  from r have i: "i < length (m_stPingWindow s)"
    unfolding i_def by arith
  from r assms have "length (m_stPingWindow s) - i \<le> unat (m_uNextSeq s)"
    unfolding i_def by arith
  from slot_seq_unat [OF i this] r have "unat (slot_seq s i) = unat (Seq p)"
    unfolding i_def by arith
  then have "slot_seq s i = Seq p"
    by (simp add: word_unat_eq_iff)
  with i show "Seq p \<in> set (window_seqs s)"
    by (auto simp: window_seqs_def intro!: image_eqI [of _ _ i])
qed

text \<open>
  Fewer than \<open>2 ^ 32\<close> calls from the constructor cannot wrap the sequence numbers, and
  then \<^verbatim>\<open>Recv\<close> ignores every \<^verbatim>\<open>Seq\<close> below \<open>m_uNextSeq - size\<close> and every \<^verbatim>\<open>Seq\<close> from
  \<^verbatim>\<open>m_uNextSeq\<close> on, compared as integers.
\<close>

lemma Update_timeouts_shorter:
  "length (fst (Update_timeouts I T w lost)) \<le> length w"
  by (induction w arbitrary: lost) (simp_all add: le_SucI)

lemma seqs_not_wrapped_step:
  assumes inv: "seqs_not_wrapped n s" and n: "Suc n < 2 ^ 32"
  shows "seqs_not_wrapped (Suc n) (Pinger_step s c)"
proof (cases c)
  case (CallUpdate now)
  show ?thesis
  proof (cases "m_ullNextSendTime s \<le> now")
    case False
    with inv CallUpdate show ?thesis by (simp add: Update_def seqs_not_wrapped_def)
  next
    case True
    from inv n have "unat (m_uNextSeq s) < 2 ^ 32 - 1"
      by (simp add: seqs_not_wrapped_def)
    then have q: "unat (m_uNextSeq s + 1) = unat (m_uNextSeq s) + 1"
      by (rule unat_Suc32)
    from Update_timeouts_shorter [of "m_uInterval s" "m_uTimeout s" "m_stPingWindow s" "m_uPacketLost s"]
      inv q CallUpdate True
    show ?thesis
      by (auto simp: seqs_not_wrapped_def Update_def split: prod.splits)
  qed
next
  case (CallRecv p now)
  with inv show ?thesis by (simp add: seqs_not_wrapped_def Recv_def Let_def)
next
  case CallReset
  with inv show ?thesis by (simp add: seqs_not_wrapped_def Reset_def)
qed

lemma seqs_not_wrapped_run:
  "length cs < 2 ^ 32 \<Longrightarrow> seqs_not_wrapped (length cs) (Pinger_run (Pinger_init I T) cs)"
proof (induction cs rule: rev_induct)
  case Nil
  show ?case by (simp add: Pinger_run_def seqs_not_wrapped_def Pinger_init_def)
next
  case (snoc c cs)
  from snoc.prems have n: "Suc (length cs) < 2 ^ 32" by simp
  then have "length cs < 2 ^ 32" by simp
  from seqs_not_wrapped_step [OF snoc.IH [OF this] n]
  show ?case by (simp add: run_snoc)
qed

lemma Recv_ignores_out_of_range:
  assumes "length cs < 2 ^ 32"
    and "unat (Seq p) + length (m_stPingWindow (Pinger_run (Pinger_init I T) cs))
           < unat (m_uNextSeq (Pinger_run (Pinger_init I T) cs))
         \<or> unat (m_uNextSeq (Pinger_run (Pinger_init I T) cs)) \<le> unat (Seq p)"
  shows "Recv (Pinger_run (Pinger_init I T) cs) p now = Pinger_run (Pinger_init I T) cs"
proof (rule ccontr)
  assume "Recv (Pinger_run (Pinger_init I T) cs) p now \<noteq> Pinger_run (Pinger_init I T) cs"
  then have "Seq p \<in> set (window_seqs (Pinger_run (Pinger_init I T) cs))"
    by (intro Recv_offset_in_range Recv_changes(1))
  moreover from seqs_not_wrapped_run [OF assms(1), of I T]
  have "length (m_stPingWindow (Pinger_run (Pinger_init I T) cs))
      \<le> unat (m_uNextSeq (Pinger_run (Pinger_init I T) cs))"
    by (simp add: seqs_not_wrapped_def)
  ultimately show False
    using assms(2) by (simp add: window_seqs_range)
qed

section \<open>Evaluation of the concrete runs\<close>

lemmas Pinger_eval = Pinger_run_def Pinger_init_def Update_def Recv_def Recv_offset_def

lemma spec_example_state:
  "spec_example =
     \<lparr> m_uInterval = 1000, m_uTimeout = 5000, m_ullNextSendTime = 5000, m_uNextSeq = 5,
       m_stPingWindow = [False, False, True, False, False], m_uTotalPacket = 5,
       m_uPacketLost = 0, m_uAvailablePacket = 1, m_uLatencyTotal = 100,
       m_uMaxLatency = 100, m_uMinLatency = 100 \<rparr>"
  by (simp add: spec_example_def spec_example_calls_def Pinger_eval)

lemma spec_example_late_ack:
  "Pinger_run (Pinger_init 1000 5000) spec_example_calls_late_ack = spec_example"
  by (simp add: spec_example_state) (simp add: spec_example_calls_late_ack_def Pinger_eval)

lemma spec_example_sent:
  "map Seq (Pinger_sent (Pinger_init 1000 5000) spec_example_calls) = [0, 1, 2, 3, 4]"
  by (simp add: spec_example_calls_def Pinger_init_def Update_def Recv_def Recv_offset_def)

lemma spec_example_Update_6000:
  "Update spec_example 6000 =
     (\<lparr> m_uInterval = 1000, m_uTimeout = 5000, m_ullNextSendTime = 7000, m_uNextSeq = 6,
        m_stPingWindow = [False, True, False, False, False], m_uTotalPacket = 6,
        m_uPacketLost = 1, m_uAvailablePacket = 1, m_uLatencyTotal = 100,
        m_uMaxLatency = 100, m_uMinLatency = 100 \<rparr>,
      Some \<lparr> Seq = 5, SendTime = 6000 \<rparr>)"
  by (simp add: spec_example_state) (simp add: Update_def)

lemma spec_example_aged_state:
  "spec_example_aged =
     \<lparr> m_uInterval = 1000, m_uTimeout = 5000, m_ullNextSendTime = 7000, m_uNextSeq = 6,
       m_stPingWindow = [False, True, False, False, False], m_uTotalPacket = 6,
       m_uPacketLost = 1, m_uAvailablePacket = 1, m_uLatencyTotal = 100,
       m_uMaxLatency = 100, m_uMinLatency = 100 \<rparr>"
  by (simp add: spec_example_aged_def spec_example_Update_6000)

lemma spec_example_aged_run:
  "spec_example_aged =
     Pinger_run (Pinger_init 1000 5000) (spec_example_calls @ [CallUpdate 6000])"
  by (simp add: spec_example_aged_def spec_example_def run_snoc)

lemma upt_5: "[0 ..< 5] = [0, 1, 2, 3, 4]"
  by (simp add: upt_rec)

lemma spec_example_seqs:
  "window_seqs spec_example = [0, 1, 2, 3, 4] \<and> window_seqs spec_example_aged = [1, 2, 3, 4, 5]"
  by (simp add: window_seqs_def slot_seq_def spec_example_state spec_example_aged_state upt_5)

lemmas Client_eval =
  Client_init_def Client_OnTick_def Pinger_init_def Update_def Reset_def GetStatistic_def
  report_lines_def example_cfg_def example_WriteStruct_def

lemma example_client_state:
  "example_client =
     \<lparr> m_stServerEndPoint = \<lparr> Addr = ''192.0.2.1'', Port = 7000 \<rparr>,
       m_stTcpSocket = 0, m_stUdpSocket = 1,
       m_iTcpChannelState = STATE_TCP_CONNECTING,
       m_ullNextTryConnectTime = 0, m_ullNextPintStatTime = 60000,
       m_stTcpPinger =
         \<lparr> m_uInterval = 10, m_uTimeout = 20, m_ullNextSendTime = 40, m_uNextSeq = 4,
           m_stPingWindow = [False, False], m_uTotalPacket = 3, m_uPacketLost = 1,
           m_uAvailablePacket = 0, m_uLatencyTotal = 0, m_uMaxLatency = 0,
           m_uMinLatency = - 1 \<rparr>,
       m_stUdpPinger =
         \<lparr> m_uInterval = 10, m_uTimeout = 20, m_ullNextSendTime = 40, m_uNextSeq = 4,
           m_stPingWindow = [False, False], m_uTotalPacket = 3, m_uPacketLost = 1,
           m_uAvailablePacket = 0, m_uLatencyTotal = 0, m_uMaxLatency = 0,
           m_uMinLatency = - 1 \<rparr>,
       m_pSink = False, HandlesCreated = 2 \<rparr>"
  unfolding example_client_def
  by (simp add: Client_eval Let_def)

text \<open>Nothing is written to the TCP socket during those four ticks.\<close>

lemma example_client_effects:
  "snd (Client_ticks example_WriteStruct (fst (Client_init example_cfg)) [0, 10, 20, 30]) =
     [SockConnect 0 example_server,
      UdpSend 1 example_server [0, 0],
      Log (PingReport TCP
            \<lparr> TotalPacket = 1, PacketLost = 0, AvailablePacket = 0,
              LatencyTotal = 0, MaxLatency = 0, MinLatency = 0 \<rparr> 0),
      Log (PingReport UDP
            \<lparr> TotalPacket = 1, PacketLost = 0, AvailablePacket = 0,
              LatencyTotal = 0, MaxLatency = 0, MinLatency = 0 \<rparr> 0),
      UdpSend 1 example_server [1, 10],
      UdpSend 1 example_server [2, 20],
      UdpSend 1 example_server [3, 30]]"
  by (simp add: Client_eval Let_def example_server_def)

section \<open>The registry loop of the server\<close>

lemma OnTick_sessions_kept:
  "fst (OnTick_sessions now ss) =
     map (\<lambda>s. if LastAlive s + 60 * 1000 \<le> now then s \<lparr> Dead := True \<rparr> else s)
       (filter (\<lambda>s. \<not> Dead s) ss)"
  by (induction ss) simp_all

lemma OnTick_sessions_closed:
  "snd (OnTick_sessions now ss) =
     map (\<lambda>s. SockClose (Socket s))
       (filter (\<lambda>s. \<not> Dead s \<and> LastAlive s + 60 * 1000 \<le> now) ss)"
  by (induction ss) simp_all

lemma OnTick_sessions_twice:
  "map Socket (fst (OnTick_sessions now' (fst (OnTick_sessions now ss)))) =
     map Socket (filter (\<lambda>s. \<not> Dead s \<and> \<not> LastAlive s + 60 * 1000 \<le> now) ss)"
  by (induction ss) simp_all

section \<open>Claims about the estimator\<close>




text \<open>
  C2, as the code has it. With interval 1000 and timeout 5000, the \<^verbatim>\<open>Update\<close> calls at 0,
  1000, 2000, 3000 and 4000 emit the probes 0 to 4; the \<^verbatim>\<open>Recv\<close> of probe 2 at 2100
  records a latency of 100 and makes \<^verbatim>\<open>m_uAvailablePacket\<close> 1, whether it is delivered at
  its time or after the five probes. The \<^verbatim>\<open>Update\<close> at 6000 then finds five slots, pops
  the slot of probe 0 only and raises \<^verbatim>\<open>m_uPacketLost\<close> from 0 to 1: the slot of probe 1
  stays in the window, which then stands for the probes 1 to 5.
\<close>

theorem spec_example_evicts_one:
  "map Seq (Pinger_sent (Pinger_init 1000 5000) spec_example_calls) = [0, 1, 2, 3, 4]
   \<and> Pinger_run (Pinger_init 1000 5000) spec_example_calls_late_ack = spec_example
   \<and> m_uAvailablePacket spec_example = 1
   \<and> m_uLatencyTotal spec_example = 100
   \<and> m_uPacketLost spec_example = 0
   \<and> m_stPingWindow spec_example = [False, False, True, False, False]
   \<and> window_seqs spec_example = [0, 1, 2, 3, 4]
   \<and> snd (Update spec_example 6000) = Some \<lparr> Seq = 5, SendTime = 6000 \<rparr>
   \<and> m_uPacketLost (fst (Update spec_example 6000)) = 1
   \<and> m_stPingWindow (fst (Update spec_example 6000)) = [False, True, False, False, False]
   \<and> window_seqs (fst (Update spec_example 6000)) = [1, 2, 3, 4, 5]"
proof -
  have "window_seqs (fst (Update spec_example 6000)) = [1, 2, 3, 4, 5]"
    using spec_example_seqs by (simp add: spec_example_aged_def)
  moreover have "window_seqs spec_example = [0, 1, 2, 3, 4]"
    using spec_example_seqs by simp
  ultimately show ?thesis
    by (simp add: spec_example_sent spec_example_late_ack spec_example_Update_6000)
      (simp add: spec_example_state)
qed

text \<open>
  Against C2 as stated: the \<^verbatim>\<open>Update\<close> at 6000 does not raise \<^verbatim>\<open>m_uPacketLost\<close> by 2.
\<close>

theorem spec_example_lost_not_two:
  "m_uPacketLost (fst (Update spec_example 6000)) \<noteq> m_uPacketLost spec_example + 2"
  by (simp add: spec_example_Update_6000) (simp add: spec_example_state)

text \<open>
  C6. \<^verbatim>\<open>Recv\<close> with a packet whose \<^verbatim>\<open>Seq\<close> is none of the sequence numbers
  \<open>m_uNextSeq - size\<close> to \<open>m_uNextSeq - 1\<close> that the window stands for (it is older than
  the oldest slot or newer than the probe sent last), or whose slot is already \<^verbatim>\<open>true\<close>,
  returns the estimator as it was: the window and every counter are unchanged. This holds
  for every estimator state. While the sequence numbers of the window have not wrapped,
  as after fewer than \<open>2 ^ 32\<close> calls from the constructor, the sequence numbers outside
  the window are exactly those below \<open>m_uNextSeq - size\<close> and those from \<^verbatim>\<open>m_uNextSeq\<close>
  on, compared as integers.
\<close>

theorem Recv_ignores_stale:
  assumes "Seq packet \<notin> set (window_seqs s) \<or> slot_acknowledged s packet"
  shows "Recv s packet now = s"
  using assms Recv_offset_in_range [of s packet]
  by (auto simp: Recv_def slot_acknowledged_def)

text \<open>
  In the state after the \<^verbatim>\<open>Update\<close> at 6000 the window stands for the probes 1 to 5 and
  probe 2 is acknowledged: probe 0 is too old, probe 6 has not been sent, probe 2 is a
  duplicate, and all three are ignored, while the echo of probe 5 is taken.
\<close>

theorem Recv_ignores_stale_witness:
  "Recv spec_example_aged \<lparr> Seq = 0, SendTime = 0 \<rparr> 6100 = spec_example_aged
   \<and> Recv spec_example_aged \<lparr> Seq = 6, SendTime = 6000 \<rparr> 6100 = spec_example_aged
   \<and> Recv spec_example_aged \<lparr> Seq = 2, SendTime = 2000 \<rparr> 6100 = spec_example_aged
   \<and> Recv spec_example_aged \<lparr> Seq = 5, SendTime = 6000 \<rparr> 6100 \<noteq> spec_example_aged"
proof -
  have older: "Seq \<lparr> Seq = 0, SendTime = 0 \<rparr> \<notin> set (window_seqs spec_example_aged)"
    by (rule older_not_in_window) (simp add: spec_example_aged_state)
  have newer: "Seq \<lparr> Seq = 6, SendTime = 6000 \<rparr> \<notin> set (window_seqs spec_example_aged)"
    by (rule newer_not_in_window) (simp_all add: spec_example_aged_state)
  have acked: "slot_acknowledged spec_example_aged \<lparr> Seq = 2, SendTime = 2000 \<rparr>"
    by (simp add: slot_acknowledged_def Recv_offset_def spec_example_aged_state)
  have fresh: "Recv spec_example_aged \<lparr> Seq = 5, SendTime = 6000 \<rparr> 6100 \<noteq> spec_example_aged"
    by (simp add: spec_example_aged_state Recv_def Recv_offset_def)
  from Recv_ignores_stale [of "\<lparr> Seq = 0, SendTime = 0 \<rparr>" spec_example_aged 6100]
       Recv_ignores_stale [of "\<lparr> Seq = 6, SendTime = 6000 \<rparr>" spec_example_aged 6100]
       Recv_ignores_stale [of "\<lparr> Seq = 2, SendTime = 2000 \<rparr>" spec_example_aged 6100]
       older newer acked fresh
  show ?thesis by blast
qed


text \<open>
  C8, as the code has it. In every state that \<^verbatim>\<open>Update\<close>, \<^verbatim>\<open>Recv\<close> and \<^verbatim>\<open>Reset\<close> calls
  reach from the constructor, the length of the window times the interval is at most the
  timeout plus one interval; when the interval is positive the window therefore never
  holds more than \<open>timeout div interval + 1\<close> slots, however long the sequence of calls.
  For interval 0 the inequality bounds nothing.
\<close>

theorem window_stays_bounded:
  "length (m_stPingWindow (Pinger_run (Pinger_init interval timeout) calls)) * unat interval
       \<le> unat timeout + unat interval
   \<and> (0 < unat interval \<longrightarrow>
        length (m_stPingWindow (Pinger_run (Pinger_init interval timeout) calls))
          \<le> unat timeout div unat interval + 1)"
proof -
  have "window_bounded (Pinger_run (Pinger_init interval timeout) calls)"
    by (intro window_bounded_run window_bounded_init)
  then have "length (m_stPingWindow (Pinger_run (Pinger_init interval timeout) calls))
      * unat interval \<le> unat timeout + unat interval"
    by (simp add: window_bounded_def run_consts) (simp add: Pinger_init_def)
  with bound_div show ?thesis by blast
qed

text \<open>The example run followed by the \<^verbatim>\<open>Update\<close> at 6000 holds five slots, at most six.\<close>

theorem window_stays_bounded_witness:
  "0 < unat (1000 :: u32)
   \<and> length (m_stPingWindow spec_example_aged) = 5
   \<and> length (m_stPingWindow spec_example_aged) \<le> unat (5000 :: u32) div unat (1000 :: u32) + 1"
  using window_stays_bounded
    [where interval = 1000 and timeout = 5000 and calls = "spec_example_calls @ [CallUpdate 6000]"]
  by (simp add: spec_example_aged_run [symmetric]) (simp add: spec_example_aged_state)

text \<open>
  Against C8 as stated: an estimator with interval 0 and timeout 5 is reachable from the
  constructor, and its window holds one slot per \<^verbatim>\<open>Update\<close> at time 0: 1000 slots after
  1000 calls, and more than any bound after enough calls.
\<close>

theorem window_grows_without_interval:
  "length (m_stPingWindow (Pinger_run (Pinger_init 0 5) (replicate 1000 (CallUpdate 0)))) = 1000
   \<and> \<not> (\<exists>bound. \<forall>n.
          length (m_stPingWindow (Pinger_run (Pinger_init 0 5) (replicate n (CallUpdate 0))))
            \<le> bound)"
proof
  show "length (m_stPingWindow (Pinger_run (Pinger_init 0 5) (replicate 1000 (CallUpdate 0)))) = 1000"
    by (simp only: replicate_Updates_interval_0) simp
  show "\<not> (\<exists>bound. \<forall>n.
          length (m_stPingWindow (Pinger_run (Pinger_init 0 5) (replicate n (CallUpdate 0))))
            \<le> bound)"
  proof
    assume "\<exists>bound. \<forall>n.
          length (m_stPingWindow (Pinger_run (Pinger_init 0 5) (replicate n (CallUpdate 0))))
            \<le> bound"
    then obtain bound where "\<forall>n.
          length (m_stPingWindow (Pinger_run (Pinger_init 0 5) (replicate n (CallUpdate 0))))
            \<le> bound" ..
    then have "length (m_stPingWindow
        (Pinger_run (Pinger_init 0 5) (replicate (Suc bound) (CallUpdate 0)))) \<le> bound" ..
    then show False
      by (simp only: replicate_Updates_interval_0) simp
  qed
qed

section \<open>Claims about the client\<close>

text \<open>
  C3, evaluated where the code departs from it. The client whose connect attempt is
  pending receives \<^verbatim>\<open>OnTcpConnected\<close> with error -111 at time 35: the state becomes
  not-connected and the next attempt is due at 10035, as claimed, but the only effect is the
  log line. No socket is created and no callback is bound, \<^verbatim>\<open>m_stTcpSocket\<close> is the socket
  it was, and the tick at 10035 calls \<^verbatim>\<open>Connect\<close> on that same socket. In the same state
  \<^verbatim>\<open>OnTcpError\<close> and \<^verbatim>\<open>OnTcpDataEof\<close> do install a new socket and bind its callbacks.
\<close>

theorem connect_failure_keeps_socket:
  "m_iTcpChannelState (fst (Client_OnTcpConnected example_client (- 111) 35))
     = STATE_TCP_NOT_CONNECT
   \<and> m_ullNextTryConnectTime (fst (Client_OnTcpConnected example_client (- 111) 35)) = 10035
   \<and> snd (Client_OnTcpConnected example_client (- 111) 35) = [Log (ConnectFailed (- 111))]
   \<and> m_stTcpSocket (fst (Client_OnTcpConnected example_client (- 111) 35))
       = m_stTcpSocket example_client
   \<and> SockConnect (m_stTcpSocket example_client) example_server
       \<in> set (snd (Client_OnTick example_WriteStruct
                     (fst (Client_OnTcpConnected example_client (- 111) 35)) 10035))
   \<and> m_stTcpSocket (fst (Client_OnTcpError example_client (- 104) 35))
       \<noteq> m_stTcpSocket example_client
   \<and> snd (Client_OnTcpError example_client (- 104) 35)
       = [Log (TcpSocketError (- 104)), SockCreate 2, SockBindCallbacks 2]
   \<and> m_stTcpSocket (fst (Client_OnTcpDataEof example_client 35))
       \<noteq> m_stTcpSocket example_client
   \<and> snd (Client_OnTcpDataEof example_client 35)
       = [Log TcpRemoteEof, SockClose 0, SockCreate 2, SockBindCallbacks 2]"
  by (simp add: example_client_state Client_OnTcpConnected_def Client_OnTcpError_def
      Client_OnTcpDataEof_def Client_OnTick_def Let_def example_server_def)

text \<open>
  C9. While the TCP state is not connected, a tick writes nothing to the TCP socket and
  still calls \<^verbatim>\<open>Update\<close> on the TCP estimator: a probe that is due raises
  \<^verbatim>\<open>m_uTotalPacket\<close> by one and the timeout loop of that \<^verbatim>\<open>Update\<close> sets
  \<^verbatim>\<open>m_uPacketLost\<close>; the TCP line of a report that is due in the tick logs the counters of
  the estimator so updated, so the loss it reports counts probes that were never
  transmitted.
\<close>

theorem tick_while_disconnected:
  assumes "m_iTcpChannelState c \<noteq> STATE_TCP_CONNECTED"
  shows "TcpWrite sock data \<notin> set (snd (Client_OnTick WriteStruct c now))
    \<and> m_stTcpPinger (fst (Client_OnTick WriteStruct c now)) =
        (if m_ullNextPintStatTime c \<le> now then Reset (fst (Update (m_stTcpPinger c) now))
         else fst (Update (m_stTcpPinger c) now))
    \<and> (m_ullNextSendTime (m_stTcpPinger c) \<le> now \<longrightarrow>
         m_uTotalPacket (fst (Update (m_stTcpPinger c) now)) = m_uTotalPacket (m_stTcpPinger c) + 1
         \<and> m_uPacketLost (fst (Update (m_stTcpPinger c) now)) =
             snd (Update_timeouts (m_uInterval (m_stTcpPinger c)) (m_uTimeout (m_stTcpPinger c))
                    (m_stPingWindow (m_stTcpPinger c)) (m_uPacketLost (m_stTcpPinger c))))
    \<and> (m_ullNextPintStatTime c \<le> now \<longrightarrow>
         Log (PingReport TCP (GetStatistic (fst (Update (m_stTcpPinger c) now)))
                (m_uPacketLost (fst (Update (m_stTcpPinger c) now))
                 + m_uAvailablePacket (fst (Update (m_stTcpPinger c) now))))
           \<in> set (snd (Client_OnTick WriteStruct c now)))"
proof (intro conjI)
  show "TcpWrite sock data \<notin> set (snd (Client_OnTick WriteStruct c now))"
    using assms
    by (auto simp: Client_OnTick_def Let_def report_lines_def split: option.splits if_splits)
  show "m_stTcpPinger (fst (Client_OnTick WriteStruct c now)) =
        (if m_ullNextPintStatTime c \<le> now then Reset (fst (Update (m_stTcpPinger c) now))
         else fst (Update (m_stTcpPinger c) now))"
    by (simp add: Client_OnTick_def Let_def)
  show "m_ullNextSendTime (m_stTcpPinger c) \<le> now \<longrightarrow>
         m_uTotalPacket (fst (Update (m_stTcpPinger c) now)) = m_uTotalPacket (m_stTcpPinger c) + 1
         \<and> m_uPacketLost (fst (Update (m_stTcpPinger c) now)) =
             snd (Update_timeouts (m_uInterval (m_stTcpPinger c)) (m_uTimeout (m_stTcpPinger c))
                    (m_stPingWindow (m_stTcpPinger c)) (m_uPacketLost (m_stTcpPinger c)))"
    by (simp add: Update_def split: prod.splits)
  show "m_ullNextPintStatTime c \<le> now \<longrightarrow>
         Log (PingReport TCP (GetStatistic (fst (Update (m_stTcpPinger c) now)))
                (m_uPacketLost (fst (Update (m_stTcpPinger c) now))
                 + m_uAvailablePacket (fst (Update (m_stTcpPinger c) now))))
           \<in> set (snd (Client_OnTick WriteStruct c now))"
    by (simp add: Client_OnTick_def Let_def report_lines_def GetStatistic_def)
qed

text \<open>
  The client whose connect attempt is pending has written nothing to the TCP socket; its
  tick at 60000 writes nothing either and reports four TCP probes sent and two lost.
\<close>

theorem tick_while_disconnected_witness:
  "m_iTcpChannelState example_client \<noteq> STATE_TCP_CONNECTED
   \<and> TcpWrite 0 (example_WriteStruct \<lparr> Seq = 4, SendTime = 60000 \<rparr>)
        \<notin> set (snd (Client_OnTick example_WriteStruct example_client 60000))
   \<and> Log (PingReport TCP \<lparr> TotalPacket = 4, PacketLost = 2, AvailablePacket = 0,
                LatencyTotal = 0, MaxLatency = 0, MinLatency = 0 \<rparr> 2)
        \<in> set (snd (Client_OnTick example_WriteStruct example_client 60000))"
proof -
  have st: "m_iTcpChannelState example_client \<noteq> STATE_TCP_CONNECTED"
    by (simp add: example_client_state)
  have due: "m_ullNextPintStatTime example_client \<le> 60000"
    by (simp add: example_client_state)
  have upd: "fst (Update (m_stTcpPinger example_client) 60000) =
      \<lparr> m_uInterval = 10, m_uTimeout = 20, m_ullNextSendTime = 60010, m_uNextSeq = 5,
        m_stPingWindow = [False, False], m_uTotalPacket = 4, m_uPacketLost = 2,
        m_uAvailablePacket = 0, m_uLatencyTotal = 0, m_uMaxLatency = 0,
        m_uMinLatency = - 1 \<rparr>"
    by (simp add: example_client_state Update_def)
  from tick_while_disconnected
    [OF st, of 0 "example_WriteStruct \<lparr> Seq = 4, SendTime = 60000 \<rparr>" example_WriteStruct 60000]
    due
  have nowrite: "TcpWrite 0 (example_WriteStruct \<lparr> Seq = 4, SendTime = 60000 \<rparr>)
        \<notin> set (snd (Client_OnTick example_WriteStruct example_client 60000))"
    and rep: "Log (PingReport TCP (GetStatistic (fst (Update (m_stTcpPinger example_client) 60000)))
                (m_uPacketLost (fst (Update (m_stTcpPinger example_client) 60000))
                 + m_uAvailablePacket (fst (Update (m_stTcpPinger example_client) 60000))))
           \<in> set (snd (Client_OnTick example_WriteStruct example_client 60000))"
    by blast+
  have stat: "GetStatistic (fst (Update (m_stTcpPinger example_client) 60000)) =
     \<lparr> TotalPacket = 4, PacketLost = 2, AvailablePacket = 0,
       LatencyTotal = 0, MaxLatency = 0, MinLatency = 0 \<rparr>"
    by (simp add: upd GetStatistic_def)
  from rep have rep': "Log (PingReport TCP \<lparr> TotalPacket = 4, PacketLost = 2,
                AvailablePacket = 0, LatencyTotal = 0, MaxLatency = 0, MinLatency = 0 \<rparr> 2)
        \<in> set (snd (Client_OnTick example_WriteStruct example_client 60000))"
    by (simp add: stat) (simp add: upd)
  show ?thesis
    by (intro conjI, rule st, rule nowrite, rule rep')
qed

text \<open>
  C10. \<^verbatim>\<open>OnUdpData\<close> does not look at the sender: datagrams with the same payload from
  any two endpoints leave the client in the same state with the same effects, and a payload
  that decodes to a packet is passed to \<^verbatim>\<open>Recv\<close> of the UDP estimator whoever sent it.
\<close>

theorem OnUdpData_ignores_sender:
  "Client_OnUdpData ReadStruct c from1 data now = Client_OnUdpData ReadStruct c from2 data now
   \<and> (ReadStruct data = Some packet \<longrightarrow>
        m_stUdpPinger (fst (Client_OnUdpData ReadStruct c from1 data now))
          = Recv (m_stUdpPinger c) packet now)"
  by (simp add: Client_OnUdpData_def)

text \<open>
  A datagram from an endpoint that is not the server, carrying the sequence number of the
  probe sent at 30, is counted as its acknowledgment.
\<close>

theorem OnUdpData_ignores_sender_witness:
  "example_stranger \<noteq> m_stServerEndPoint example_client
   \<and> example_ReadStruct [3, 30] = Some \<lparr> Seq = 3, SendTime = 30 \<rparr>
   \<and> Client_OnUdpData example_ReadStruct example_client example_stranger [3, 30] 33
       = Client_OnUdpData example_ReadStruct example_client example_server [3, 30] 33
   \<and> m_uAvailablePacket (m_stUdpPinger (fst
        (Client_OnUdpData example_ReadStruct example_client example_stranger [3, 30] 33))) = 1
   \<and> m_stPingWindow (m_stUdpPinger (fst
        (Client_OnUdpData example_ReadStruct example_client example_stranger [3, 30] 33)))
       = [False, True]"
proof -
  have dec: "example_ReadStruct [3, 30] = Some \<lparr> Seq = 3, SendTime = 30 \<rparr>"
    by (simp add: example_ReadStruct_def)
  have rcv: "Recv (m_stUdpPinger example_client) \<lparr> Seq = 3, SendTime = 30 \<rparr> 33 =
      \<lparr> m_uInterval = 10, m_uTimeout = 20, m_ullNextSendTime = 40, m_uNextSeq = 4,
        m_stPingWindow = [False, True], m_uTotalPacket = 3, m_uPacketLost = 1,
        m_uAvailablePacket = 1, m_uLatencyTotal = 3, m_uMaxLatency = 3, m_uMinLatency = 3 \<rparr>"
    by (simp add: example_client_state Recv_def Recv_offset_def)
  have ne: "example_stranger \<noteq> m_stServerEndPoint example_client"
    by (simp add: example_client_state example_stranger_def)
  from OnUdpData_ignores_sender
    [of example_ReadStruct example_client example_stranger "[3, 30]" 33 example_server
        "\<lparr> Seq = 3, SendTime = 30 \<rparr>"]
    dec
  have same: "Client_OnUdpData example_ReadStruct example_client example_stranger [3, 30] 33
       = Client_OnUdpData example_ReadStruct example_client example_server [3, 30] 33"
    and ack: "m_stUdpPinger (fst
         (Client_OnUdpData example_ReadStruct example_client example_stranger [3, 30] 33))
       = Recv (m_stUdpPinger example_client) \<lparr> Seq = 3, SendTime = 30 \<rparr> 33"
    by blast+
  show ?thesis
    by (intro conjI, rule ne, rule dec, rule same) (simp_all add: ack rcv)
qed

section \<open>Claims about the server\<close>




text \<open>
  C5. One tick of the server keeps exactly the sessions that were not dead before it, in
  their order: every session already dead is removed in that pass, and a live session with
  \<^verbatim>\<open>LastAlive + 60000 <= now\<close> is closed and marked dead but stays in the registry, as
  does, unchanged, a live session that has not timed out. After the following tick only
  the sessions that were live and not timed out at the first tick are left: a session that
  timed out is removed one tick after the tick that marked it dead.
\<close>

theorem OnTick_removes_on_next_pass:
  "map Socket (m_stSessions (fst (Server_OnTick srv now)))
     = map Socket (filter (\<lambda>s. \<not> Dead s) (m_stSessions srv))
   \<and> (\<forall>s \<in> set (m_stSessions srv). \<not> Dead s \<and> LastAlive s + 60 * 1000 \<le> now \<longrightarrow>
          s \<lparr> Dead := True \<rparr> \<in> set (m_stSessions (fst (Server_OnTick srv now)))
          \<and> SockClose (Socket s) \<in> set (snd (Server_OnTick srv now)))
   \<and> (\<forall>s \<in> set (m_stSessions srv). \<not> Dead s \<and> \<not> LastAlive s + 60 * 1000 \<le> now \<longrightarrow>
          s \<in> set (m_stSessions (fst (Server_OnTick srv now))))
   \<and> map Socket (m_stSessions (fst (Server_OnTick (fst (Server_OnTick srv now)) now')))
     = map Socket
         (filter (\<lambda>s. \<not> Dead s \<and> \<not> LastAlive s + 60 * 1000 \<le> now) (m_stSessions srv))"
proof (intro conjI)
  show "map Socket (m_stSessions (fst (Server_OnTick srv now)))
     = map Socket (filter (\<lambda>s. \<not> Dead s) (m_stSessions srv))"
    by (simp add: Server_OnTick_def OnTick_sessions_kept o_def)
  show "\<forall>s \<in> set (m_stSessions srv). \<not> Dead s \<and> LastAlive s + 60 * 1000 \<le> now \<longrightarrow>
          s \<lparr> Dead := True \<rparr> \<in> set (m_stSessions (fst (Server_OnTick srv now)))
          \<and> SockClose (Socket s) \<in> set (snd (Server_OnTick srv now))"
    by (auto simp: Server_OnTick_def OnTick_sessions_kept OnTick_sessions_closed image_iff
        intro!: bexI)
  show "\<forall>s \<in> set (m_stSessions srv). \<not> Dead s \<and> \<not> LastAlive s + 60 * 1000 \<le> now \<longrightarrow>
          s \<in> set (m_stSessions (fst (Server_OnTick srv now)))"
    by (auto simp: Server_OnTick_def OnTick_sessions_kept image_iff intro!: bexI)
  show "map Socket (m_stSessions (fst (Server_OnTick (fst (Server_OnTick srv now)) now')))
     = map Socket
         (filter (\<lambda>s. \<not> Dead s \<and> \<not> LastAlive s + 60 * 1000 \<le> now) (m_stSessions srv))"
    by (simp add: Server_OnTick_def OnTick_sessions_twice)
qed

text \<open>
  A registry of a dead session 3, a session 4 idle since 1000 and a session 5 alive at
  30000: the tick at 61000 removes 3 and closes and marks 4, which the tick at 62000
  removes.
\<close>

theorem OnTick_removes_on_next_pass_witness:
  "map Socket (m_stSessions (fst (Server_OnTick example_registry 61000))) = [4, 5]
   \<and> \<lparr> Socket = 4, LastAlive = 1000, Dead = True \<rparr>
        \<in> set (m_stSessions (fst (Server_OnTick example_registry 61000)))
   \<and> SockClose 4 \<in> set (snd (Server_OnTick example_registry 61000))
   \<and> \<lparr> Socket = 5, LastAlive = 30000, Dead = False \<rparr>
        \<in> set (m_stSessions (fst (Server_OnTick example_registry 61000)))
   \<and> map Socket (m_stSessions
        (fst (Server_OnTick (fst (Server_OnTick example_registry 61000)) 62000))) = [5]"
  using OnTick_removes_on_next_pass [of example_registry 61000 62000]
  by (simp add: example_registry_def example_sessions_def)

end
